theory Spec2Isabelle
  imports Main
begin

section \<open>Strings as the program sees them\<close>

text \<open>
  A string is a list of code units; the model covers the code units below 256. The
  character classes are the ones the regular expressions and \<^verbatim>\<open>trim\<close> of the source
  use, restricted to that range: white space is TAB, LF, VT, FF, CR, SPACE and NBSP, a
  line terminator (what \<^verbatim>\<open>.\<close> refuses) is LF or CR, a digit is \<^verbatim>\<open>0-9\<close>.
\<close>

definition isSpace :: "char \<Rightarrow> bool" where
  "isSpace c = (c \<in> set [CHR 0x09, CHR 0x0A, CHR 0x0B, CHR 0x0C, CHR 0x0D, CHR '' '', CHR 0xA0])"

definition isLineTerminator :: "char \<Rightarrow> bool" where
  "isLineTerminator c = (c = CHR 0x0A \<or> c = CHR 0x0D)"

definition isDigit :: "char \<Rightarrow> bool" where
  "isDigit c = (c \<in> set ''0123456789'')"

definition isUpper :: "char \<Rightarrow> bool" where
  "isUpper c = (c \<in> set ''ABCDEFGHIJKLMNOPQRSTUVWXYZ'')"

text \<open>Case folding of the \<^verbatim>\<open>i\<close> flag: only the ASCII letters fold onto the letters of a pattern.\<close>

definition lowerc :: "char \<Rightarrow> char" where
  "lowerc c =
     (case map_of (zip ''ABCDEFGHIJKLMNOPQRSTUVWXYZ'' ''abcdefghijklmnopqrstuvwxyz'') c of
        Some d \<Rightarrow> d
      | None \<Rightarrow> c)"

text \<open>\<^verbatim>\<open>s.trim()\<close>\<close>

definition trim :: "string \<Rightarrow> string" where
  "trim s = rev (dropWhile isSpace (rev (dropWhile isSpace s)))"

text \<open>\<^verbatim>\<open>s.startsWith(w)\<close> and \<^verbatim>\<open>s.includes(w)\<close>\<close>

fun startsWith :: "string \<Rightarrow> string \<Rightarrow> bool" where
  "startsWith s [] = True"
| "startsWith [] (w # ws) = False"
| "startsWith (c # cs) (w # ws) = (c = w \<and> startsWith cs ws)"

fun includesStr :: "string \<Rightarrow> string \<Rightarrow> bool" where
  "includesStr [] w = (w = [])"
| "includesStr (c # cs) w = (startsWith (c # cs) w \<or> includesStr cs w)"

text \<open>\<^verbatim>\<open>s.split(d)\<close> for a separator of one character: never the empty list.\<close>

fun splitOn :: "char \<Rightarrow> string \<Rightarrow> string list" where
  "splitOn d [] = [[]]"
| "splitOn d (c # cs) =
     (if c = d then [] # splitOn d cs
      else (case splitOn d cs of
              [] \<Rightarrow> [[c]]
            | x # xs \<Rightarrow> (c # x) # xs))"

text \<open>\<^verbatim>\<open>parts.join(sep)\<close>\<close>

fun joinWith :: "string \<Rightarrow> string list \<Rightarrow> string" where
  "joinWith sep [] = []"
| "joinWith sep [x] = x"
| "joinWith sep (x # y # ys) = x @ sep @ joinWith sep (y # ys)"

text \<open>\<^verbatim>\<open>a || b\<close> on a string that may be undefined: the empty string is falsy too.\<close>

definition orElse :: "string option \<Rightarrow> string \<Rightarrow> string" where
  "orElse a b = (case a of None \<Rightarrow> b | Some s \<Rightarrow> if s = [] then b else s)"

text \<open>\<^verbatim>\<open>xs.pop()\<close> as a value: the last element, undefined on the empty array.\<close>

definition pop :: "string list \<Rightarrow> string option" where
  "pop xs = (if xs = [] then None else Some (last xs))"

section \<open>The regular expressions of the source\<close>

text \<open>
  A literal word matched at the start of the input without regard to ASCII case; the
  result is the input after the word.
\<close>

fun matchLit :: "string \<Rightarrow> string \<Rightarrow> string option" where
  "matchLit [] s = Some s"
| "matchLit (p # ps) [] = None"
| "matchLit (p # ps) (c # cs) = (if lowerc c = lowerc p then matchLit ps cs else None)"

text \<open>
  An anchored alternation \<^verbatim>\<open>/^(w1|w2|...)/i\<close>, given by its words in order: the first
  word that matches is the match.
\<close>

fun matchAlts :: "string list \<Rightarrow> string \<Rightarrow> string option" where
  "matchAlts [] s = None"
| "matchAlts (w # ws) s =
     (case matchLit w s of
        Some r \<Rightarrow> Some r
      | None \<Rightarrow> matchAlts ws s)"

text \<open>\<^verbatim>\<open>pattern.test(input)\<close> and \<^verbatim>\<open>input.replace(pattern, '')\<close> for such a pattern.\<close>

definition test :: "string list \<Rightarrow> string \<Rightarrow> bool" where
  "test pattern input = (matchAlts pattern input \<noteq> None)"

definition replaceFirst :: "string list \<Rightarrow> string \<Rightarrow> string" where
  "replaceFirst pattern input =
     (case matchAlts pattern input of
        Some r \<Rightarrow> r
      | None \<Rightarrow> input)"

text \<open>\<^verbatim>\<open>args.match(/\d+/)\<close>: the text of the leftmost match, which is greedy.\<close>

fun matchDigits :: "string \<Rightarrow> string option" where
  "matchDigits [] = None"
| "matchDigits (c # cs) =
     (if isDigit c then Some (takeWhile isDigit (c # cs)) else matchDigits cs)"

text \<open>
  \<^verbatim>\<open>args.match(/project[: ](\S+)/i)\<close>: the first group of the leftmost match.
\<close>

fun projectMatch :: "string \<Rightarrow> string option" where
  "projectMatch [] = None"
| "projectMatch (c # cs) =
     (case matchLit ''project'' (c # cs) of
        Some (d # r) \<Rightarrow>
          if (d = CHR '':'' \<or> d = CHR '' '') \<and> takeWhile (\<lambda>x. \<not> isSpace x) r \<noteq> []
          then Some (takeWhile (\<lambda>x. \<not> isSpace x) r)
          else projectMatch cs
      | _ \<Rightarrow> projectMatch cs)"

text \<open>\<^verbatim>\<open>/^[A-Z]+-\d+/.test(branch)\<close>\<close>

definition ticketCode :: "string \<Rightarrow> bool" where
  "ticketCode s =
     (takeWhile isUpper s \<noteq> [] \<and>
      (case dropWhile isUpper s of
         c # d # _ \<Rightarrow> c = CHR ''-'' \<and> isDigit d
       | _ \<Rightarrow> False))"

text \<open>\<^verbatim>\<open>line.match(/^\s*ID\s+/)\<close> and \<^verbatim>\<open>line.match(/^\s*\d+\s+/)\<close>, as truth values.\<close>

definition isHeader :: "string \<Rightarrow> bool" where
  "isHeader line =
     (case dropWhile isSpace line of
        a # b # c # _ \<Rightarrow> a = CHR ''I'' \<and> b = CHR ''D'' \<and> isSpace c
      | _ \<Rightarrow> False)"

definition isRow :: "string \<Rightarrow> bool" where
  "isRow line =
     (let r = dropWhile isSpace line in
      takeWhile isDigit r \<noteq> [] \<and>
      (case dropWhile isDigit r of
         c # _ \<Rightarrow> isSpace c
       | [] \<Rightarrow> False))"

text \<open>
  \<^verbatim>\<open>line.match(/^- \[ \] (.+)/)\<close>: the first group, which runs to the end of the line or
  to the first line terminator and is not empty.
\<close>

definition checkboxMatch :: "string \<Rightarrow> string option" where
  "checkboxMatch line =
     (if startsWith line ''- [ ] ''
        \<and> takeWhile (\<lambda>c. \<not> isLineTerminator c) (drop 6 line) \<noteq> []
      then Some (takeWhile (\<lambda>c. \<not> isLineTerminator c) (drop 6 line))
      else None)"

text \<open>
  \<^verbatim>\<open>/TODO[:\s]+(.+)/gi\<close>. \<open>textRun\<close> is the group \<^verbatim>\<open>(.+)\<close>: the longest run without a
  line terminator, with the input after it. \<open>sepRun\<close> is \<^verbatim>\<open>[:\s]+(.+)\<close>: the separator
  run is greedy and gives characters back, one at a time, while the group finds nothing.
\<close>

definition isSep :: "char \<Rightarrow> bool" where
  "isSep c = (c = CHR '':'' \<or> isSpace c)"

definition textRun :: "string \<Rightarrow> (string \<times> string) option" where
  "textRun s =
     (if takeWhile (\<lambda>c. \<not> isLineTerminator c) s = [] then None
      else Some (takeWhile (\<lambda>c. \<not> isLineTerminator c) s,
                 dropWhile (\<lambda>c. \<not> isLineTerminator c) s))"

fun sepRun :: "string \<Rightarrow> (string \<times> string) option" where
  "sepRun [] = None"
| "sepRun (c # cs) =
     (if isSep c
      then (case sepRun cs of
              Some m \<Rightarrow> Some m
            | None \<Rightarrow> textRun cs)
      else None)"

definition todoAt :: "string \<Rightarrow> (string \<times> string) option" where
  "todoAt s = (case matchLit ''TODO'' s of None \<Rightarrow> None | Some r \<Rightarrow> sepRun r)"

lemma textRun_length: "textRun s = Some (t, r) \<Longrightarrow> length r \<le> length s"
  by (auto simp: textRun_def length_dropWhile_le split: if_splits)

lemma sepRun_length: "sepRun s = Some (t, r) \<Longrightarrow> length r < length s"
proof (induction s)
  case Nil
  then show ?case by simp
next
  case (Cons c cs)
  show ?case
  proof (cases "sepRun cs")
    case None
    with Cons.prems have "textRun cs = Some (t, r)"
      by (simp split: if_splits)
    then show ?thesis
      using textRun_length by fastforce
  next
    case (Some m)
    with Cons.prems have "sepRun cs = Some (t, r)"
      by (simp split: if_splits)
    then show ?thesis
      using Cons.IH by simp
  qed
qed

lemma matchLit_length: "matchLit w s = Some r \<Longrightarrow> length r \<le> length s"
  by (induction w s rule: matchLit.induct) (auto split: if_splits)

lemma todoAt_length: "todoAt s = Some (t, r) \<Longrightarrow> length r < length s"
  unfolding todoAt_def
  by (auto split: option.splits dest!: matchLit_length sepRun_length)

text \<open>
  \<^verbatim>\<open>content.matchAll(...)\<close>: the first groups of the successive matches, each search
  starting where the match before it ended.
\<close>

function matchAllTodo :: "string \<Rightarrow> string list" where
  "matchAllTodo [] = []"
| "matchAllTodo (c # cs) =
     (case todoAt (c # cs) of
        Some (t, r) \<Rightarrow> t # matchAllTodo r
      | None \<Rightarrow> matchAllTodo cs)"
  by pat_completeness auto
termination
  by (relation "measure length") (auto dest: todoAt_length)

section \<open>The environment: file system, version control, parsed JSON\<close>

text \<open>
  What \<^verbatim>\<open>JSON.parse\<close> returns. A number is kept as the two things this program can
  observe of it: whether it is zero (then it is falsy) and its rendering as a string.
  An object is the list of its own properties, looked up with \<open>map_of\<close>.
\<close>

datatype jsnum = JsNum (numIsZero: bool) (numText: string)

datatype json =
    JNull
  | JBool bool
  | JNum jsnum
  | JString string
  | JArray "json list"
  | JObject "(string \<times> json) list"

text \<open>Truthiness, and the string a value turns into inside a template or \<^verbatim>\<open>includes\<close>.\<close>

fun truthy :: "json \<Rightarrow> bool" where
  "truthy JNull = False"
| "truthy (JBool b) = b"
| "truthy (JNum n) = (\<not> numIsZero n)"
| "truthy (JString s) = (s \<noteq> [])"
| "truthy (JArray xs) = True"
| "truthy (JObject ps) = True"

fun toStr :: "json \<Rightarrow> string" where
  "toStr JNull = ''null''"
| "toStr (JBool b) = (if b then ''true'' else ''false'')"
| "toStr (JNum n) = numText n"
| "toStr (JString s) = s"
| "toStr (JArray xs) = joinWith '','' (map (\<lambda>x. if x = JNull then [] else toStr x) xs)"
| "toStr (JObject ps) = ''[object Object]''"

text \<open>
  A path is missing (\<^verbatim>\<open>access\<close> fails), or it exists and \<^verbatim>\<open>readFile\<close> fails on it (a
  directory, no read permission), or it is a file with contents.
\<close>

datatype fileState = Missing | Unreadable | Content string

datatype error = ReadError string | SyntaxError | TypeError

text \<open>
  The environment of one call. \<open>exec\<close> gives the standard output of a shell command, or
  \<open>None\<close> when the command fails; \<open>pjoin\<close> is \<^verbatim>\<open>path.join\<close> and \<open>jsonParse\<close> is
  \<^verbatim>\<open>JSON.parse\<close> (\<open>None\<close> for a syntax error), both library code taken as given.
\<close>

record env =
  cwd :: string
  fs :: "string \<Rightarrow> fileState"
  exec :: "string \<Rightarrow> string option"
  pjoin :: "string \<Rightarrow> string \<Rightarrow> string"
  jsonParse :: "string \<Rightarrow> json option"

definition exists :: "env \<Rightarrow> string \<Rightarrow> bool" where
  "exists e path = (fs e path \<noteq> Missing)"

definition readFile :: "env \<Rightarrow> string \<Rightarrow> error + string" where
  "readFile e path =
     (case fs e path of
        Content s \<Rightarrow> Inr s
      | _ \<Rightarrow> Inl (ReadError path))"

section \<open>ContextManager\<close>

text \<open>
  The fields are optional strings. \<open>currentTicket\<close> holds whatever the state file had in
  \<^verbatim>\<open>currentFocus.ticket\<close>, which the source stores unchecked, so it is a JSON value here;
  a ticket that is a string \<open>s\<close> is \<open>JString s\<close>.
\<close>

record ProjectContext =
  currentTicket :: "json option"
  currentProject :: "string option"
  workspacePath :: "string option"
  ticketsPath :: "string option"

definition emptyContext :: ProjectContext where
  "emptyContext =
     \<lparr>currentTicket = None, currentProject = None, workspacePath = None, ticketsPath = None\<rparr>"

text \<open>\<^verbatim>\<open>executeCommand\<close> catches the failure of the command itself and returns the empty string.\<close>

definition executeCommand :: "env \<Rightarrow> string \<Rightarrow> error + string" where
  "executeCommand e command =
     (case exec e command of
        Some stdout \<Rightarrow> Inr (trim stdout)
      | None \<Rightarrow> Inr [])"

text \<open>
  The first stage of \<^verbatim>\<open>detectContext\<close>: the project. The read of the marker file is
  outside every \<^verbatim>\<open>try\<close>, so its failure leaves the function; nothing has been written to
  the context at that point.
\<close>

definition dirProject :: "env \<Rightarrow> ProjectContext \<Rightarrow> ProjectContext" where
  "dirProject e ctx =
     (let dirName = orElse (pop (splitOn CHR ''/'' (cwd e))) ''general''
      in ctx\<lparr>currentProject := Some dirName, workspacePath := Some (cwd e)\<rparr>)"

definition detectProject :: "env \<Rightarrow> ProjectContext \<Rightarrow> error + ProjectContext" where
  "detectProject e ctx =
     (let projectFilePath = pjoin e (cwd e) ''.taskproject'' in
      if exists e projectFilePath then
        (case readFile e projectFilePath of
           Inl err \<Rightarrow> Inl err
         | Inr text \<Rightarrow>
             Inr (ctx\<lparr>currentProject := Some (trim text),
                      workspacePath := Some (cwd e),
                      ticketsPath := Some (pjoin e (cwd e) ''.tickets'')\<rparr>))
      else
        (case executeCommand e ''git rev-parse --show-toplevel'' of
           Inr result \<Rightarrow>
             if result \<noteq> [] then
               (let repoPath = trim result;
                    repoName = orElse (pop (splitOn CHR ''/'' repoPath)) ''general''
                in Inr (ctx\<lparr>currentProject := Some repoName,
                            workspacePath := Some repoPath,
                            ticketsPath := Some (pjoin e repoPath ''.tickets'')\<rparr>))
             else Inr (dirProject e ctx)
         | Inl err \<Rightarrow> Inr (dirProject e ctx)))"

text \<open>
  \<^verbatim>\<open>taskState.currentFocus?.ticket\<close>: \<open>None\<close> is \<^verbatim>\<open>undefined\<close>. Reading a property of
  \<^verbatim>\<open>null\<close> throws; a property that a value does not have is \<^verbatim>\<open>undefined\<close>.
\<close>

definition focusTicket :: "json \<Rightarrow> error + json option" where
  "focusTicket taskState =
     (case taskState of
        JNull \<Rightarrow> Inl TypeError
      | JObject ps \<Rightarrow>
          (case map_of ps ''currentFocus'' of
             Some (JObject qs) \<Rightarrow> Inr (map_of qs ''ticket'')
           | _ \<Rightarrow> Inr None)
      | _ \<Rightarrow> Inr None)"

text \<open>The body of the first \<^verbatim>\<open>try\<close> of the ticket stage: the state file.\<close>

definition stateFileTicket :: "env \<Rightarrow> ProjectContext \<Rightarrow> error + ProjectContext" where
  "stateFileTicket e ctx =
     (let taskStatePath = pjoin e (orElse (workspacePath ctx) (cwd e)) ''.task-state.json'' in
      if exists e taskStatePath then
        (case readFile e taskStatePath of
           Inl err \<Rightarrow> Inl err
         | Inr text \<Rightarrow>
             (case jsonParse e text of
                None \<Rightarrow> Inl SyntaxError
              | Some taskState \<Rightarrow>
                  (case focusTicket taskState of
                     Inl err \<Rightarrow> Inl err
                   | Inr None \<Rightarrow> Inr ctx
                   | Inr (Some v) \<Rightarrow>
                       if truthy v then Inr (ctx\<lparr>currentTicket := Some v\<rparr>) else Inr ctx)))
      else Inr ctx)"

text \<open>The body of the second \<^verbatim>\<open>try\<close>: the branch.\<close>

definition branchTicket :: "env \<Rightarrow> ProjectContext \<Rightarrow> error + ProjectContext" where
  "branchTicket e ctx =
     (case executeCommand e ''git branch --show-current'' of
        Inl err \<Rightarrow> Inl err
      | Inr branch \<Rightarrow>
          if branch \<noteq> [] \<and> ticketCode branch
          then Inr (ctx\<lparr>currentTicket := Some (JString (trim branch))\<rparr>)
          else Inr ctx)"

text \<open>\<^verbatim>\<open>try { ... } catch { }\<close> around a block that writes the context only as its last step.\<close>

definition ignoreErrors :: "ProjectContext \<Rightarrow> error + ProjectContext \<Rightarrow> ProjectContext" where
  "ignoreErrors ctx r = (case r of Inl err \<Rightarrow> ctx | Inr ctx' \<Rightarrow> ctx')"

text \<open>
  \<^verbatim>\<open>detectContext\<close>, from the context the manager holds to the one it holds and returns
  afterwards; \<open>Inl\<close> is a rejected promise, and then the held context is unchanged.
\<close>

definition detectContext :: "env \<Rightarrow> ProjectContext \<Rightarrow> error + ProjectContext" where
  "detectContext e ctx =
     (case detectProject e ctx of
        Inl err \<Rightarrow> Inl err
      | Inr ctx1 \<Rightarrow>
          (let ctx2 = ignoreErrors ctx1 (stateFileTicket e ctx1);
               ctx3 = ignoreErrors ctx2 (branchTicket e ctx2)
           in Inr ctx3))"

definition setCurrentTicket :: "ProjectContext \<Rightarrow> string \<Rightarrow> ProjectContext" where
  "setCurrentTicket ctx ticket = ctx\<lparr>currentTicket := Some (JString ticket)\<rparr>"

text \<open>\<^verbatim>\<open>getTicketTasks\<close>: the two files in turn; a failing read leaves the function.\<close>

definition checklistTasks :: "string \<Rightarrow> string list" where
  "checklistTasks content = List.map_filter checkboxMatch (splitOn CHR 0x0A content)"

definition todoTasks :: "string \<Rightarrow> string list" where
  "todoTasks content = map trim (matchAllTodo content)"

definition tasksOfFile :: "env \<Rightarrow> string \<Rightarrow> (string \<Rightarrow> string list) \<Rightarrow> error + string list" where
  "tasksOfFile e path extract =
     (if exists e path then
        (case readFile e path of
           Inl err \<Rightarrow> Inl err
         | Inr content \<Rightarrow> Inr (extract content))
      else Inr [])"

definition getTicketTasks :: "env \<Rightarrow> ProjectContext \<Rightarrow> string \<Rightarrow> error + string list" where
  "getTicketTasks e ctx ticket =
     (case ticketsPath ctx of
        None \<Rightarrow> Inr []
      | Some tp \<Rightarrow>
          if tp = [] then Inr []
          else
            (let ticketPath = pjoin e tp ticket;
                 checklistPath = pjoin e ticketPath ''mr-checklist.md'';
                 contextPath = pjoin e ticketPath ''context.md''
             in case tasksOfFile e checklistPath checklistTasks of
                  Inl err \<Rightarrow> Inl err
                | Inr tasks \<Rightarrow>
                    (case tasksOfFile e contextPath todoTasks of
                       Inl err \<Rightarrow> Inl err
                     | Inr todos \<Rightarrow> Inr (tasks @ todos))))"

definition formatTaskwarriorProject :: "ProjectContext \<Rightarrow> json" where
  "formatTaskwarriorProject ctx =
     (case currentTicket ctx of
        Some v \<Rightarrow>
          if truthy v then v
          else JString (orElse (currentProject ctx) ''general'')
      | None \<Rightarrow> JString (orElse (currentProject ctx) ''general''))"

definition enhanceTaskDescription :: "ProjectContext \<Rightarrow> string \<Rightarrow> string" where
  "enhanceTaskDescription ctx description =
     (let parts = [description];
          parts = (case currentTicket ctx of
                     Some v \<Rightarrow>
                       if truthy v \<and> \<not> includesStr description (toStr v)
                       then parts @ [''+'' @ toStr v]
                       else parts
                   | None \<Rightarrow> parts);
          parts = (if orElse (currentProject ctx) [] \<noteq> [] \<and> \<not> includesStr description ''project:''
                   then parts @ [''project:'' @ orElse (currentProject ctx) []]
                   else parts)
      in joinWith '' '' parts)"

section \<open>TaskwarriorBridge\<close>

text \<open>
  \<^verbatim>\<open>TASK_PATTERNS\<close> in the order of its declaration, which is the order \<^verbatim>\<open>Object.entries\<close>
  gives; each pattern is an anchored alternation of words, without regard to case.
\<close>

definition TASK_PATTERNS :: "(string \<times> string list) list" where
  "TASK_PATTERNS =
     [(''add'', [''add'', ''create'', ''new'', ''make'', ''todo'', ''task'']),
      (''list'', [''list'', ''show'', ''what'', ''tasks'', ''todos'']),
      (''complete'', [''done'', ''complete'', ''finish'', ''mark'', ''check'']),
      (''modify'', [''modify'', ''change'', ''update'', ''edit'']),
      (''delete'', [''delete'', ''remove'', ''rm'']),
      (''prioritize'', [''prioritize'', ''priority'', ''urgent'', ''important'']),
      (''context'', [''where'', ''context'', ''project'', ''current'']),
      (''next'', [''next'', ''now'', ''focus'', ''immediate''])]"

text \<open>
  The loop at the head of \<^verbatim>\<open>parseNaturalLanguage\<close>, over the entries that are left: the
  pair of \<^verbatim>\<open>action\<close> and \<^verbatim>\<open>args\<close> it leaves behind.
\<close>

fun classifyLoop :: "(string \<times> string list) list \<Rightarrow> string \<Rightarrow> string \<times> string" where
  "classifyLoop [] input = (''list'', input)"
| "classifyLoop ((key, pattern) # rest) input =
     (if test pattern input then (key, trim (replaceFirst pattern input))
      else classifyLoop rest input)"

definition classify :: "string \<Rightarrow> string \<times> string" where
  "classify input = classifyLoop TASK_PATTERNS input"

record command =
  action :: string
  args :: string

definition projectFilter :: "ProjectContext \<Rightarrow> string" where
  "projectFilter context =
     (case currentProject context of
        Some p \<Rightarrow> if p \<noteq> [] then ''project:'' @ p else []
      | None \<Rightarrow> [])"

definition listArgs :: "string \<Rightarrow> string \<Rightarrow> string" where
  "listArgs residual pf =
     (if includesStr residual ''today'' \<or> includesStr residual ''now''
      then trim (''due:today '' @ pf)
      else if includesStr residual ''urgent'' \<or> includesStr residual ''high''
      then trim (''priority:H '' @ pf)
      else if includesStr residual ''project''
      then (case projectMatch residual of
              Some m \<Rightarrow> ''project:'' @ m
            | None \<Rightarrow> [])
      else pf)"

text \<open>The \<^verbatim>\<open>switch\<close> of \<^verbatim>\<open>parseNaturalLanguage\<close>.\<close>

definition toCommand :: "string \<Rightarrow> string \<Rightarrow> ProjectContext \<Rightarrow> command" where
  "toCommand act residual context =
     (if act = ''add'' then \<lparr>action = ''add'', args = residual\<rparr>
      else if act = ''list'' then \<lparr>action = ''list'', args = listArgs residual (projectFilter context)\<rparr>
      else if act = ''complete'' then
        (case matchDigits residual of
           Some m \<Rightarrow> \<lparr>action = ''done'', args = m\<rparr>
         | None \<Rightarrow> \<lparr>action = ''done'', args = ''1''\<rparr>)
      else if act = ''next'' then \<lparr>action = ''next'', args = projectFilter context\<rparr>
      else if act = ''context'' then
        (if residual \<noteq> [] then \<lparr>action = ''context'', args = residual\<rparr>
         else \<lparr>action = ''context'', args = ''list''\<rparr>)
      else \<lparr>action = act, args = residual\<rparr>)"

text \<open>
  \<^verbatim>\<open>parseNaturalLanguage\<close> with the context the manager holds: the command and the
  context held afterwards, or the rejection of \<^verbatim>\<open>detectContext\<close>, which it awaits
  outside every \<^verbatim>\<open>try\<close>.
\<close>

definition parseNaturalLanguage ::
    "env \<Rightarrow> ProjectContext \<Rightarrow> string \<Rightarrow> error + (command \<times> ProjectContext)" where
  "parseNaturalLanguage e ctx input =
     (case classify input of
        (act, residual) \<Rightarrow>
          (case detectContext e ctx of
             Inl err \<Rightarrow> Inl err
           | Inr context \<Rightarrow> Inr (toCommand act residual context, context)))"

text \<open>
  The loop of \<^verbatim>\<open>formatOutput\<close> over the lines that are left, with \<^verbatim>\<open>inTaskList\<close> and the
  rows pushed so far; \<^verbatim>\<open>break\<close> ends it with those rows.
\<close>

fun collectTasks :: "string list \<Rightarrow> bool \<Rightarrow> string list \<Rightarrow> string list" where
  "collectTasks [] inTaskList tasks = tasks"
| "collectTasks (line # rest) inTaskList tasks =
     (if isHeader line then collectTasks rest True tasks
      else
        (let tasks' = (if inTaskList \<and> isRow line then tasks @ [trim line] else tasks) in
         if includesStr line ''tasks'' \<and> \<not> inTaskList then tasks'
         else collectTasks rest inTaskList tasks'))"

definition formatOutput :: "string \<Rightarrow> string \<Rightarrow> string" where
  "formatOutput output act =
     (let lines = filter (\<lambda>line. trim line \<noteq> []) (splitOn CHR 0x0A output) in
      if act = ''list'' \<or> act = ''next'' then
        (let tasks = collectTasks lines False [] in
         if tasks \<noteq> [] then ''Current tasks:'' @ [CHR 0x0A] @ joinWith [CHR 0x0A] tasks
         else output)
      else output)"

section \<open>Example environments\<close>

text \<open>
  A checkout of a repository \<^verbatim>\<open>shop\<close> on the branch \<^verbatim>\<open>DRX-7\<close>, with no marker file and no
  state file, and the context that \<^verbatim>\<open>detectContext\<close> finds there.
\<close>

definition repoEnv :: env where
  "repoEnv =
     \<lparr>cwd = ''/home/u/shop'',
      fs = (\<lambda>path. Missing),
      exec = (\<lambda>command.
        if command = ''git rev-parse --show-toplevel'' then Some ''/home/u/shop''
        else if command = ''git branch --show-current'' then Some ''DRX-7''
        else None),
      pjoin = (\<lambda>a b. a @ ''/'' @ b),
      jsonParse = (\<lambda>text. None)\<rparr>"

definition repoContext :: ProjectContext where
  "repoContext =
     \<lparr>currentTicket = Some (JString ''DRX-7''), currentProject = Some ''shop'',
      workspacePath = Some ''/home/u/shop'', ticketsPath = Some ''/home/u/shop/.tickets''\<rparr>"

text \<open>
  The same directory outside any repository, with a marker file \<^verbatim>\<open>.taskproject\<close> that exists
  and cannot be read (a directory of that name, or a file without read permission).
\<close>

definition lockedMarkerEnv :: env where
  "lockedMarkerEnv =
     \<lparr>cwd = ''/home/u/shop'',
      fs = (\<lambda>path. if path = ''/home/u/shop/.taskproject'' then Unreadable else Missing),
      exec = (\<lambda>command. None),
      pjoin = (\<lambda>a b. a @ ''/'' @ b),
      jsonParse = (\<lambda>text. None)\<rparr>"

text \<open>
  A directory with a marker file naming the project, a state file whose focus is the
  ticket \<^verbatim>\<open>DRX-1\<close>, and the branch \<^verbatim>\<open>DRX-7\<close> checked out.
\<close>

definition focusEnv :: env where
  \<open>focusEnv =
     \<lparr>cwd = ''/home/u/shop'',
      fs = (\<lambda>path.
        if path = ''/home/u/shop/.taskproject'' then Content ''my-project\<newline>''
        else if path = ''/home/u/shop/.task-state.json''
        then Content ''{"currentFocus": {"ticket": "DRX-1"}}''
        else Missing),
      exec = (\<lambda>command.
        if command = ''git branch --show-current'' then Some ''DRX-7\<newline>'' else None),
      pjoin = (\<lambda>a b. a @ ''/'' @ b),
      jsonParse = (\<lambda>text.
        if text = ''{"currentFocus": {"ticket": "DRX-1"}}''
        then Some (JObject [(''currentFocus'', JObject [(''ticket'', JString ''DRX-1'')])])
        else None)\<rparr>\<close>

text \<open>
  A tickets directory with the ticket \<^verbatim>\<open>DRX-7\<close>: a checklist with two open items and notes
  with two markers.
\<close>

definition ticketEnv :: env where
  "ticketEnv =
     \<lparr>cwd = ''/home/u/shop'',
      fs = (\<lambda>path.
        if path = ''/home/u/shop/.tickets/DRX-7/mr-checklist.md''
        then Content ''# Checklist\<newline>- [ ] A\<newline>- [x] merged\<newline>- [ ] B\<newline>''
        else if path = ''/home/u/shop/.tickets/DRX-7/context.md''
        then Content ''Notes\<newline>TODO: write tests\<newline>see also todo   update docs \<newline>''
        else Missing),
      exec = (\<lambda>command. None),
      pjoin = (\<lambda>a b. a @ ''/'' @ b),
      jsonParse = (\<lambda>text. None)\<rparr>"

text \<open>
  The same ticket with notes whose first marker ends its line, so that the separator run
  of the pattern takes the line break too.
\<close>

definition danglingNotes :: string where
  "danglingNotes = ''TODO:\<newline>TODO: b''"

definition danglingTodoEnv :: env where
  "danglingTodoEnv =
     \<lparr>cwd = ''/home/u/shop'',
      fs = (\<lambda>path.
        if path = ''/home/u/shop/.tickets/DRX-7/mr-checklist.md''
        then Content ''- [ ] A\<newline>- [ ] B''
        else if path = ''/home/u/shop/.tickets/DRX-7/context.md''
        then Content danglingNotes
        else Missing),
      exec = (\<lambda>command. None),
      pjoin = (\<lambda>a b. a @ ''/'' @ b),
      jsonParse = (\<lambda>text. None)\<rparr>"

section \<open>The rows the normalizer is said to collect\<close>

text \<open>
  The task rows in the words of the specification, for comparison with the loop of
  \<^verbatim>\<open>formatOutput\<close>: among the non-blank lines, the lines after the first header line that
  begin with a number followed by white space, each trimmed, in order; and none at all
  when a line containing \<open>tasks\<close> comes before any header line.
\<close>

definition taskRows :: "string \<Rightarrow> string list" where
  "taskRows output =
     (let lines = filter (\<lambda>line. trim line \<noteq> []) (splitOn CHR 0x0A output) in
      if list_ex (\<lambda>line. includesStr line ''tasks'') (takeWhile (\<lambda>line. \<not> isHeader line) lines)
      then []
      else map trim (filter isRow (dropWhile (\<lambda>line. \<not> isHeader line) lines)))"

section \<open>The invariant of the context\<close>

text \<open>
  The invariant in the words of the specification: each field is absent or a non-empty
  string. For the ticket that also means: a string, not another JSON value.
\<close>

definition fieldOk :: "string option \<Rightarrow> bool" where
  "fieldOk f = (case f of None \<Rightarrow> True | Some s \<Rightarrow> s \<noteq> [])"

definition ticketOk :: "json option \<Rightarrow> bool" where
  "ticketOk t = (case t of None \<Rightarrow> True | Some (JString s) \<Rightarrow> s \<noteq> [] | Some _ \<Rightarrow> False)"

definition contextOk :: "ProjectContext \<Rightarrow> bool" where
  "contextOk ctx =
     (ticketOk (currentTicket ctx) \<and> fieldOk (currentProject ctx)
      \<and> fieldOk (workspacePath ctx) \<and> fieldOk (ticketsPath ctx))"

section \<open>Ticket tasks in the words of the specification\<close>

text \<open>A line that contains the marker: \<open>TODO\<close>, in any case, and a colon or white space.\<close>

fun todoMarked :: "string \<Rightarrow> bool" where
  "todoMarked [] = False"
| "todoMarked (c # cs) =
     ((case matchLit ''TODO'' (c # cs) of
         Some (d # r) \<Rightarrow> isSep d
       | _ \<Rightarrow> False)
      \<or> todoMarked cs)"

text \<open>
  The note-derived tasks as the specification words them, one per marked line: the notes
  are split into lines and the pattern is applied to each line alone.
\<close>

definition todoTasksPerLine :: "string \<Rightarrow> string list" where
  "todoTasksPerLine content =
     concat (map (\<lambda>line. map trim (take 1 (matchAllTodo line))) (splitOn CHR 0x0A content))"

text \<open>
  An unchecked-checkbox line, \<^verbatim>\<open>- [ ] \<close> and at least one character that is not a line
  terminator, and the text of its task.
\<close>

definition uncheckedLine :: "string \<Rightarrow> bool" where
  "uncheckedLine line =
     (startsWith line ''- [ ] '' \<and>
      (case drop 6 line of
         [] \<Rightarrow> False
       | c # _ \<Rightarrow> \<not> isLineTerminator c))"

definition itemText :: "string \<Rightarrow> string" where
  "itemText line = takeWhile (\<lambda>c. \<not> isLineTerminator c) (drop 6 line)"

section \<open>Intent classification\<close>

lemma classifyLoop_no_match:
  "\<forall>(key, pattern) \<in> set tbl. \<not> test pattern q \<Longrightarrow> classifyLoop tbl q = (''list'', q)"
  by (induction tbl) auto

lemma classifyLoop_least:
  "j < length tbl \<Longrightarrow> test (snd (tbl ! j)) q \<Longrightarrow>
   \<exists>i\<le>j. classifyLoop tbl q = (fst (tbl ! i), trim (replaceFirst (snd (tbl ! i)) q))
        \<and> test (snd (tbl ! i)) q \<and> (\<forall>k<i. \<not> test (snd (tbl ! k)) q)"
proof (induction tbl arbitrary: j)
  case Nil
  then show ?case by simp
next
  case (Cons entry rest)
  obtain key pattern where entry: "entry = (key, pattern)"
    by (cases entry)
  show ?case
  proof (cases "test pattern q")
    case True
    then have "classifyLoop (entry # rest) q = (fst ((entry # rest) ! 0), trim (replaceFirst (snd ((entry # rest) ! 0)) q))
        \<and> test (snd ((entry # rest) ! 0)) q \<and> (\<forall>k<0. \<not> test (snd ((entry # rest) ! k)) q)"
      by (simp add: entry)
    then show ?thesis by blast
  next
    case False
    with Cons.prems entry obtain j' where j: "j = Suc j'"
      by (cases j) auto
    with Cons.prems have "j' < length rest" "test (snd (rest ! j')) q"
      by simp_all
    from Cons.IH[OF this] obtain i where i: "i \<le> j'"
      "classifyLoop rest q = (fst (rest ! i), trim (replaceFirst (snd (rest ! i)) q))"
      "test (snd (rest ! i)) q" "\<forall>k<i. \<not> test (snd (rest ! k)) q"
      by blast
    have "\<forall>k<Suc i. \<not> test (snd ((entry # rest) ! k)) q"
    proof (intro allI impI)
      fix k assume "k < Suc i"
      then show "\<not> test (snd ((entry # rest) ! k)) q"
        using False i(4) entry by (cases k) auto
    qed
    with i False entry j have "Suc i \<le> j \<and>
        classifyLoop (entry # rest) q = (fst ((entry # rest) ! Suc i), trim (replaceFirst (snd ((entry # rest) ! Suc i)) q))
        \<and> test (snd ((entry # rest) ! Suc i)) q \<and> (\<forall>k<Suc i. \<not> test (snd ((entry # rest) ! k)) q)"
      by simp
    then show ?thesis by blast
  qed
qed

lemma TASK_PATTERNS_distinct: "distinct (map fst TASK_PATTERNS)"
  by (simp add: TASK_PATTERNS_def)

text \<open>
  Claim C4. A query that none of the declared trigger patterns matches is classified as
  \<open>list\<close>, and its residual text is the whole query, unchanged (not even trimmed).
\<close>

theorem classify_default:
  assumes "\<forall>(key, pattern) \<in> set TASK_PATTERNS. \<not> test pattern q"
  shows "classify q = (''list'', q)"
  unfolding classify_def using assms by (rule classifyLoop_no_match)

theorem classify_default_witness:
  "\<not> (\<exists>(key, pattern) \<in> set TASK_PATTERNS. test pattern ''hello there'')
   \<and> classify ''hello there'' = (''list'', ''hello there'')"
proof -
  have h: "\<forall>(key, pattern) \<in> set TASK_PATTERNS. \<not> test pattern ''hello there''"
    by (simp add: TASK_PATTERNS_def test_def lowerc_def)
  from classify_default[OF h] h show ?thesis by blast
qed

text \<open>
  Claim C3. Classification is a function of the query, so it gives one intent, and the
  declaration order alone decides it: whenever some trigger matches the start of the
  query, the result is the key of the first entry of \<open>TASK_PATTERNS\<close> that matches, with
  the matched word removed and the rest trimmed; so when an earlier entry matches as
  well, the later entry's intent is not the result.
\<close>

theorem classify_first_trigger_wins:
  assumes "j < length TASK_PATTERNS" and "test (snd (TASK_PATTERNS ! j)) q"
  shows "(\<exists>i\<le>j. classify q = (fst (TASK_PATTERNS ! i), trim (replaceFirst (snd (TASK_PATTERNS ! i)) q))
              \<and> test (snd (TASK_PATTERNS ! i)) q
              \<and> (\<forall>k<i. \<not> test (snd (TASK_PATTERNS ! k)) q))
         \<and> ((\<exists>i<j. test (snd (TASK_PATTERNS ! i)) q) \<longrightarrow> fst (classify q) \<noteq> fst (TASK_PATTERNS ! j))"
proof -
  from classifyLoop_least[OF assms] obtain i where i: "i \<le> j"
    "classify q = (fst (TASK_PATTERNS ! i), trim (replaceFirst (snd (TASK_PATTERNS ! i)) q))"
    "test (snd (TASK_PATTERNS ! i)) q" "\<forall>k<i. \<not> test (snd (TASK_PATTERNS ! k)) q"
    unfolding classify_def by blast
  have "fst (classify q) \<noteq> fst (TASK_PATTERNS ! j)" if "\<exists>i'<j. test (snd (TASK_PATTERNS ! i')) q"
  proof -
    from that obtain i' where i': "i' < j" "test (snd (TASK_PATTERNS ! i')) q" by blast
    with i(4) have "\<not> i' < i" by blast
    with i' have "i < j" by simp
    have "(map fst TASK_PATTERNS ! i = map fst TASK_PATTERNS ! j) = (i = j)"
      by (rule nth_eq_iff_index_eq[OF TASK_PATTERNS_distinct])
         (use \<open>i < j\<close> assms(1) in simp_all)
    with \<open>i < j\<close> assms(1) have "fst (TASK_PATTERNS ! i) \<noteq> fst (TASK_PATTERNS ! j)"
      by simp
    with i(2) show ?thesis by simp
  qed
  with i show ?thesis by blast
qed

theorem classify_first_trigger_wins_witness:
  "1 < length TASK_PATTERNS \<and> test (snd (TASK_PATTERNS ! 1)) ''tasks due''
   \<and> (\<exists>i<1. test (snd (TASK_PATTERNS ! i)) ''tasks due'')
   \<and> fst (TASK_PATTERNS ! 1) = ''list''
   \<and> fst (classify ''tasks due'') \<noteq> ''list''"
proof -
  have len: "1 < length TASK_PATTERNS" by (simp add: TASK_PATTERNS_def)
  have t1: "test (snd (TASK_PATTERNS ! 1)) ''tasks due''"
    by (simp add: TASK_PATTERNS_def test_def lowerc_def)
  have t0: "test (snd (TASK_PATTERNS ! 0)) ''tasks due''"
    by (simp add: TASK_PATTERNS_def test_def lowerc_def)
  then have ex: "\<exists>i<1. test (snd (TASK_PATTERNS ! i)) ''tasks due''" by blast
  have k: "fst (TASK_PATTERNS ! 1) = ''list''" by (simp add: TASK_PATTERNS_def)
  from classify_first_trigger_wins[OF len t1] ex k len t1 show ?thesis by simp
qed

section \<open>Command synthesis\<close>

lemma repoEnv_detect: "detectContext repoEnv emptyContext = Inr repoContext"
  by code_simp

lemma matchDigits_None: "(matchDigits s = None) = (\<forall>c\<in>set s. \<not> isDigit c)"
  by (induction s) auto

lemma matchDigits_Some:
  "matchDigits s = Some m \<Longrightarrow>
   \<exists>pre post. s = pre @ m @ post \<and> (\<forall>c\<in>set pre. \<not> isDigit c) \<and> m \<noteq> []
      \<and> (\<forall>c\<in>set m. isDigit c) \<and> (post = [] \<or> \<not> isDigit (hd post))"
proof (induction s)
  case Nil
  then show ?case by simp
next
  case (Cons c cs)
  show ?case
  proof (cases "isDigit c")
    case True
    with Cons.prems have m: "m = takeWhile isDigit (c # cs)" by simp
    have "c # cs = [] @ m @ dropWhile isDigit (c # cs)"
      unfolding m by simp
    moreover have "m \<noteq> []" using True m by simp
    moreover have "\<forall>x\<in>set m. isDigit x"
      unfolding m by (meson set_takeWhileD)
    moreover have "dropWhile isDigit (c # cs) = [] \<or> \<not> isDigit (hd (dropWhile isDigit (c # cs)))"
      using hd_dropWhile by blast
    ultimately show ?thesis
      by (metis empty_iff list.set(1))
  next
    case False
    with Cons.prems have "matchDigits cs = Some m" by simp
    from Cons.IH[OF this] obtain pre post where
      "cs = pre @ m @ post" "\<forall>x\<in>set pre. \<not> isDigit x" "m \<noteq> []"
      "\<forall>x\<in>set m. isDigit x" "post = [] \<or> \<not> isDigit (hd post)"
      by blast
    with False have "c # cs = (c # pre) @ m @ post \<and> (\<forall>x\<in>set (c # pre). \<not> isDigit x) \<and> m \<noteq> []
      \<and> (\<forall>x\<in>set m. isDigit x) \<and> (post = [] \<or> \<not> isDigit (hd post))"
      by simp
    then show ?thesis by blast
  qed
qed

text \<open>
  Claim C5. When the query is classified as \<open>complete\<close> (and context detection returns),
  the command has the verb \<open>done\<close>. Its argument is \<open>1\<close> when the residual text has no
  digit; when it has one, the argument is the first maximal run of digits: only
  non-digits come before it, and it ends at the end of the text or before a non-digit.
\<close>

theorem complete_synthesizes_done:
  assumes "classify q = (''complete'', residual)"
      and "detectContext e ctx = Inr context"
  shows "\<exists>m. parseNaturalLanguage e ctx q = Inr (\<lparr>action = ''done'', args = m\<rparr>, context)
     \<and> ((\<forall>c\<in>set residual. \<not> isDigit c) \<longrightarrow> m = ''1'')
     \<and> ((\<exists>c\<in>set residual. isDigit c) \<longrightarrow>
          (\<exists>pre post. residual = pre @ m @ post \<and> (\<forall>c\<in>set pre. \<not> isDigit c) \<and> m \<noteq> []
             \<and> (\<forall>c\<in>set m. isDigit c) \<and> (post = [] \<or> \<not> isDigit (hd post))))"
proof (cases "matchDigits residual")
  case None
  then have "\<forall>c\<in>set residual. \<not> isDigit c"
    by (simp add: matchDigits_None)
  moreover have "parseNaturalLanguage e ctx q = Inr (\<lparr>action = ''done'', args = ''1''\<rparr>, context)"
    using assms None by (simp add: parseNaturalLanguage_def toCommand_def)
  ultimately show ?thesis by blast
next
  case (Some m)
  then have ex: "\<exists>c\<in>set residual. isDigit c"
    using matchDigits_None[of residual] by auto
  have "parseNaturalLanguage e ctx q = Inr (\<lparr>action = ''done'', args = m\<rparr>, context)"
    using assms Some by (simp add: parseNaturalLanguage_def toCommand_def)
  with matchDigits_Some[OF Some] ex show ?thesis by blast
qed

theorem complete_synthesizes_done_witness:
  "parseNaturalLanguage repoEnv emptyContext ''done 12 and 3''
     = Inr (\<lparr>action = ''done'', args = ''12''\<rparr>, repoContext)
   \<and> parseNaturalLanguage repoEnv emptyContext ''finish the report''
     = Inr (\<lparr>action = ''done'', args = ''1''\<rparr>, repoContext)"
proof -
  have c1: "classify ''done 12 and 3'' = (''complete'', ''12 and 3'')" by code_simp
  have c2: "classify ''finish the report'' = (''complete'', ''the report'')" by code_simp
  have d2: "\<forall>c\<in>set ''the report''. \<not> isDigit c" by (simp add: isDigit_def)
  have "parseNaturalLanguage repoEnv emptyContext ''done 12 and 3''
          = Inr (\<lparr>action = ''done'', args = ''12''\<rparr>, repoContext)"
    using c1 repoEnv_detect by (simp add: parseNaturalLanguage_def toCommand_def isDigit_def)
  moreover from complete_synthesizes_done[OF c2 repoEnv_detect] d2
  have "parseNaturalLanguage repoEnv emptyContext ''finish the report''
          = Inr (\<lparr>action = ''done'', args = ''1''\<rparr>, repoContext)"
    by blast
  ultimately show ?thesis by simp
qed

text \<open>
  Claim C1, as amended. For the \<open>next\<close> intent, and for the \<open>list\<close> intent whose residual
  text has none of the cues \<open>today\<close>, \<open>now\<close>, \<open>urgent\<close>, \<open>high\<close>, \<open>project\<close>, the argument of
  the command is the project filter, and that filter is \<open>project:\<close> followed by the
  detected \<open>currentProject\<close> when that is a non-empty string, and the empty string
  otherwise. Neither \<open>currentTicket\<close> nor the default label takes part in it.
\<close>

theorem scope_filter_from_project:
  assumes "detectContext e ctx = Inr context"
      and "classify q = (act, residual)"
      and "act = ''next'' \<or>
           (act = ''list'' \<and> \<not> includesStr residual ''today'' \<and> \<not> includesStr residual ''now''
             \<and> \<not> includesStr residual ''urgent'' \<and> \<not> includesStr residual ''high''
             \<and> \<not> includesStr residual ''project'')"
  shows "parseNaturalLanguage e ctx q =
           Inr (\<lparr>action = act,
                 args = (case currentProject context of
                           Some p \<Rightarrow> if p \<noteq> [] then ''project:'' @ p else []
                         | None \<Rightarrow> [])\<rparr>,
                context)"
  using assms
  by (auto simp: parseNaturalLanguage_def toCommand_def listArgs_def projectFilter_def)

theorem scope_filter_from_project_witness:
  "parseNaturalLanguage repoEnv emptyContext ''show me everything''
     = Inr (\<lparr>action = ''list'', args = ''project:shop''\<rparr>, repoContext)"
proof -
  have c: "classify ''show me everything'' = (''list'', ''me everything'')" by code_simp
  have n: "''list'' = ''next'' \<or>
           (''list'' = ''list'' \<and> \<not> includesStr ''me everything'' ''today''
             \<and> \<not> includesStr ''me everything'' ''now''
             \<and> \<not> includesStr ''me everything'' ''urgent''
             \<and> \<not> includesStr ''me everything'' ''high''
             \<and> \<not> includesStr ''me everything'' ''project'')"
    by simp
  from scope_filter_from_project[OF repoEnv_detect c n] show ?thesis
    by (simp add: repoContext_def)
qed

text \<open>
  Claim C1 as stated fails. On the branch \<open>DRX-7\<close> of the repository \<open>shop\<close> the fallback
  chain of \<open>formatTaskwarriorProject\<close> gives the ticket, yet the filter of \<open>next\<close> names the
  project and does not contain the ticket.
\<close>

theorem scope_filter_chain_counterexample:
  "parseNaturalLanguage repoEnv emptyContext ''next''
     = Inr (\<lparr>action = ''next'', args = ''project:shop''\<rparr>, repoContext)
   \<and> formatTaskwarriorProject repoContext = JString ''DRX-7''
   \<and> \<not> includesStr ''project:shop'' ''DRX-7''"
  by code_simp

section \<open>Context detection\<close>

text \<open>
  Claim C2 does not hold of the code. The read of the marker file is the one step of
  \<open>detectContext\<close> outside every \<^verbatim>\<open>try\<close>: with a marker that exists and cannot be read,
  the call is rejected with the read error instead of returning a context.
\<close>

theorem detectContext_unreadable_marker:
  "detectContext lockedMarkerEnv emptyContext = Inl (ReadError ''/home/u/shop/.taskproject'')"
  by code_simp

text \<open>That read is the only way for \<open>detectContext\<close> to fail.\<close>

lemma detectContext_rejects_iff:
  "(\<exists>err. detectContext e ctx = Inl err) = (fs e (pjoin e (cwd e) ''.taskproject'') = Unreadable)"
  by (auto simp: detectContext_def detectProject_def exists_def readFile_def executeCommand_def Let_def
      split: sum.splits fileState.splits option.splits if_splits)

lemma trim_prefix: "\<exists>r. dropWhile isSpace s = trim s @ r"
proof -
  let ?u = "dropWhile isSpace s"
  have "?u = rev (dropWhile isSpace (rev ?u)) @ rev (takeWhile isSpace (rev ?u))"
    by (metis rev_append rev_rev_ident takeWhile_dropWhile_id)
  then show ?thesis
    unfolding trim_def by blast
qed

lemma trim_head: "trim s \<noteq> [] \<Longrightarrow> \<not> isSpace (hd (trim s))"
proof -
  assume t: "trim s \<noteq> []"
  obtain r where r: "dropWhile isSpace s = trim s @ r" using trim_prefix by blast
  with t have "hd (trim s) = hd (dropWhile isSpace s)" by simp
  moreover from r t have "dropWhile isSpace s \<noteq> []" by auto
  ultimately show ?thesis using hd_dropWhile[of isSpace s] by simp
qed

lemma trim_idem: "trim (trim s) = trim s"
proof -
  have a: "dropWhile isSpace (trim s) = trim s"
    using trim_head[of s] by (cases "trim s") auto
  have "dropWhile isSpace (rev (trim s)) = rev (trim s)"
    by (simp add: trim_def)
  with a show ?thesis
    by (metis rev_rev_ident trim_def)
qed

lemma orElse_nonempty: "b \<noteq> [] \<Longrightarrow> orElse a b \<noteq> []"
  by (simp add: orElse_def split: option.splits)


lemma trim_Nil: "trim [] = []"
  by (simp add: trim_def)

lemma executeCommand_returns: "\<exists>out. executeCommand e command = Inr out"
  by (simp add: executeCommand_def split: option.splits)

lemma executeCommand_trimmed:
  "executeCommand e command = Inr out \<Longrightarrow> trim out = out"
  by (auto simp: executeCommand_def trim_idem trim_Nil split: option.splits)

text \<open>
  Claim C8. The ticket comes from two sources in a fixed order. The state file is read
  first and its \<^verbatim>\<open>currentFocus.ticket\<close>, when truthy, is written to the context; the branch
  is asked second, and when it is not empty and matches the ticket pattern it overwrites
  what the state file gave. So when both yield a value, the returned context holds the
  branch; when the branch yields none, it holds the value of the state file.
\<close>

theorem branch_ticket_overwrites_state_ticket:
  assumes "detectProject e ctx = Inr ctx1"
      and "fs e (pjoin e (orElse (workspacePath ctx1) (cwd e)) ''.task-state.json'') = Content text"
      and "jsonParse e text = Some taskState"
      and "focusTicket taskState = Inr (Some v)"
      and "truthy v"
      and "executeCommand e ''git branch --show-current'' = Inr branch"
  shows "stateFileTicket e ctx1 = Inr (ctx1\<lparr>currentTicket := Some v\<rparr>)
       \<and> detectContext e ctx =
           Inr (ctx1\<lparr>currentTicket :=
                  (if branch \<noteq> [] \<and> ticketCode branch then Some (JString branch) else Some v)\<rparr>)"
proof -
  have s: "stateFileTicket e ctx1 = Inr (ctx1\<lparr>currentTicket := Some v\<rparr>)"
    using assms(2-5) by (simp add: stateFileTicket_def exists_def readFile_def Let_def)
  have t: "trim branch = branch"
    using assms(6) by (rule executeCommand_trimmed)
  have "detectContext e ctx =
           Inr (ctx1\<lparr>currentTicket :=
                  (if branch \<noteq> [] \<and> ticketCode branch then Some (JString branch) else Some v)\<rparr>)"
    using assms(1,6) s t
    by (simp add: detectContext_def ignoreErrors_def branchTicket_def Let_def)
  with s show ?thesis by simp
qed


theorem branch_ticket_overwrites_state_ticket_witness:
  "detectContext focusEnv emptyContext =
     Inr \<lparr>currentTicket = Some (JString ''DRX-7''), currentProject = Some ''my-project'',
          workspacePath = Some ''/home/u/shop'', ticketsPath = Some ''/home/u/shop/.tickets''\<rparr>
   \<and> detectContext (focusEnv\<lparr>exec := (\<lambda>command. Some ''main'')\<rparr>) emptyContext =
     Inr \<lparr>currentTicket = Some (JString ''DRX-1''), currentProject = Some ''my-project'',
          workspacePath = Some ''/home/u/shop'', ticketsPath = Some ''/home/u/shop/.tickets''\<rparr>"
proof -
  let ?ctx1 = "\<lparr>currentTicket = None, currentProject = Some ''my-project'',
          workspacePath = Some ''/home/u/shop'', ticketsPath = Some ''/home/u/shop/.tickets''\<rparr>"
  let ?state = "JObject [(''currentFocus'', JObject [(''ticket'', JString ''DRX-1'')])]"
  let ?text = \<open>''{"currentFocus": {"ticket": "DRX-1"}}''\<close>
  let ?e = "focusEnv\<lparr>exec := (\<lambda>command. Some ''main'')\<rparr>"
  have p: "detectProject focusEnv emptyContext = Inr ?ctx1"
    by code_simp
  have f: "fs focusEnv (pjoin focusEnv (orElse (workspacePath ?ctx1) (cwd focusEnv)) ''.task-state.json'')
             = Content ?text"
    by code_simp
  have j: "jsonParse focusEnv ?text = Some ?state"
    by code_simp
  have v: "focusTicket ?state = Inr (Some (JString ''DRX-1''))"
    by code_simp
  have t: "truthy (JString ''DRX-1'')"
    by simp
  have b: "executeCommand focusEnv ''git branch --show-current'' = Inr ''DRX-7''"
    by code_simp
  have p': "detectProject ?e emptyContext = Inr ?ctx1"
    by code_simp
  have f': "fs ?e (pjoin ?e (orElse (workspacePath ?ctx1) (cwd ?e)) ''.task-state.json'')
             = Content ?text"
    by code_simp
  have j': "jsonParse ?e ?text = Some ?state"
    by code_simp
  have b': "executeCommand ?e ''git branch --show-current'' = Inr ''main''"
    by code_simp
  have c: "ticketCode ''DRX-7''" "\<not> ticketCode ''main''"
    by code_simp+
  from branch_ticket_overwrites_state_ticket[OF p f j v t b]
       branch_ticket_overwrites_state_ticket[OF p' f' j' v t b'] c
  show ?thesis by simp
qed

lemma detectProject_ok:
  assumes "contextOk ctx" and "cwd e \<noteq> []" and "\<And>a b. pjoin e a b \<noteq> []"
      and "\<And>text. fs e (pjoin e (cwd e) ''.taskproject'') = Content text \<Longrightarrow> trim text \<noteq> []"
      and "detectProject e ctx = Inr ctx1"
  shows "contextOk ctx1"
proof (cases "fs e (pjoin e (cwd e) ''.taskproject'')")
  case Missing
  obtain result where r: "executeCommand e ''git rev-parse --show-toplevel'' = Inr result"
    using executeCommand_returns by blast
  then have "trim result = result" by (rule executeCommand_trimmed)
  with assms(1-3,5) Missing r show ?thesis
    by (auto simp: detectProject_def dirProject_def exists_def contextOk_def fieldOk_def
        orElse_nonempty Let_def split: if_splits)
next
  case Unreadable
  with assms(5) show ?thesis
    by (simp add: detectProject_def exists_def readFile_def)
next
  case (Content content)
  with assms(1-5) show ?thesis
    by (auto simp: detectProject_def exists_def readFile_def contextOk_def fieldOk_def)
qed

lemma stateFileTicket_ok:
  assumes "contextOk ctx1"
      and "\<And>ws text taskState v.
             fs e (pjoin e ws ''.task-state.json'') = Content text \<Longrightarrow>
             jsonParse e text = Some taskState \<Longrightarrow>
             focusTicket taskState = Inr (Some v) \<Longrightarrow> truthy v \<Longrightarrow> \<exists>s. v = JString s"
  shows "contextOk (ignoreErrors ctx1 (stateFileTicket e ctx1))"
proof (cases "stateFileTicket e ctx1")
  case (Inl err)
  with assms(1) show ?thesis by (simp add: ignoreErrors_def)
next
  case (Inr ctx2)
  have "ticketOk (currentTicket ctx2) \<and> currentProject ctx2 = currentProject ctx1
        \<and> workspacePath ctx2 = workspacePath ctx1 \<and> ticketsPath ctx2 = ticketsPath ctx1"
  proof (cases "ctx2 = ctx1")
    case True
    with assms(1) show ?thesis by (simp add: contextOk_def)
  next
    case False
    from Inr False obtain content taskState v where
      "fs e (pjoin e (orElse (workspacePath ctx1) (cwd e)) ''.task-state.json'') = Content content"
      "jsonParse e content = Some taskState" "focusTicket taskState = Inr (Some v)" "truthy v"
      "ctx2 = ctx1\<lparr>currentTicket := Some v\<rparr>"
      by (auto simp: stateFileTicket_def readFile_def Let_def
          split: if_splits fileState.splits option.splits sum.splits)
    moreover from this assms(2) obtain s where "v = JString s" by blast
    ultimately show ?thesis by (auto simp: ticketOk_def)
  qed
  with assms(1) Inr show ?thesis
    by (simp add: ignoreErrors_def contextOk_def)
qed

lemma branchTicket_ok:
  assumes "contextOk ctx2"
  shows "contextOk (ignoreErrors ctx2 (branchTicket e ctx2))"
proof -
  obtain branch where b: "executeCommand e ''git branch --show-current'' = Inr branch"
    using executeCommand_returns by blast
  then have "trim branch = branch" by (rule executeCommand_trimmed)
  with assms b show ?thesis
    by (simp add: branchTicket_def ignoreErrors_def contextOk_def ticketOk_def)
qed

text \<open>
  Claim C6, as amended. Let the context satisfy the invariant, let the working directory
  and the results of \<^verbatim>\<open>path.join\<close> be non-empty, let the marker file, when it can be read,
  have contents that are not blank, and let a truthy ticket of the state file be a string.
  Then \<open>detectContext\<close> returns a context that satisfies the invariant (or is rejected for
  an unreadable marker, the held context unchanged); and \<open>setCurrentTicket\<close>, which stores
  its argument unchecked, keeps the invariant exactly when the argument is not empty.
\<close>

theorem context_fields_stay_nonempty:
  assumes "contextOk ctx" and "cwd e \<noteq> []" and "\<And>a b. pjoin e a b \<noteq> []"
      and "\<And>text. fs e (pjoin e (cwd e) ''.taskproject'') = Content text \<Longrightarrow> trim text \<noteq> []"
      and "\<And>ws text taskState v.
             fs e (pjoin e ws ''.task-state.json'') = Content text \<Longrightarrow>
             jsonParse e text = Some taskState \<Longrightarrow>
             focusTicket taskState = Inr (Some v) \<Longrightarrow> truthy v \<Longrightarrow> \<exists>s. v = JString s"
  shows "(case detectContext e ctx of
            Inr ctx' \<Rightarrow> contextOk ctx'
          | Inl err \<Rightarrow> fs e (pjoin e (cwd e) ''.taskproject'') = Unreadable)
       \<and> contextOk (setCurrentTicket ctx ticket) = (ticket \<noteq> [])"
proof -
  have "contextOk ctx'" if "detectContext e ctx = Inr ctx'" for ctx'
  proof -
    from that obtain ctx1 where p: "detectProject e ctx = Inr ctx1"
      and c: "ctx' = ignoreErrors (ignoreErrors ctx1 (stateFileTicket e ctx1))
                (branchTicket e (ignoreErrors ctx1 (stateFileTicket e ctx1)))"
      by (auto simp: detectContext_def Let_def split: sum.splits)
    from assms(1-4) p have "contextOk ctx1" by (rule detectProject_ok)
    then have "contextOk (ignoreErrors ctx1 (stateFileTicket e ctx1))"
      using assms(5) by (rule stateFileTicket_ok)
    then show ?thesis
      unfolding c by (rule branchTicket_ok)
  qed
  moreover have "fs e (pjoin e (cwd e) ''.taskproject'') = Unreadable"
    if "detectContext e ctx = Inl err" for err
    using that detectContext_rejects_iff[of e ctx] by blast
  moreover have "contextOk (setCurrentTicket ctx ticket) = (ticket \<noteq> [])"
    using assms(1) by (simp add: setCurrentTicket_def contextOk_def ticketOk_def)
  ultimately show ?thesis
    by (simp split: sum.splits)
qed

text \<open>
  Claim C6 as stated fails: \<open>setCurrentTicket\<close> with the empty string leaves
  \<open>currentTicket\<close> present and empty.
\<close>

theorem empty_ticket_counterexample:
  "contextOk emptyContext \<and> \<not> contextOk (setCurrentTicket emptyContext [])"
  by (simp add: contextOk_def ticketOk_def fieldOk_def emptyContext_def setCurrentTicket_def)


theorem context_fields_stay_nonempty_witness:
  "contextOk \<lparr>currentTicket = Some (JString ''DRX-7''), currentProject = Some ''my-project'',
          workspacePath = Some ''/home/u/shop'', ticketsPath = Some ''/home/u/shop/.tickets''\<rparr>
   \<and> contextOk (setCurrentTicket emptyContext ''DRX-9'')"
proof -
  have h1: "contextOk emptyContext"
    by (simp add: contextOk_def ticketOk_def fieldOk_def emptyContext_def)
  have h2: "cwd focusEnv \<noteq> []"
    by (simp add: focusEnv_def)
  have h3: "pjoin focusEnv a b \<noteq> []" for a b
    by (simp add: focusEnv_def)
  have h4: "trim content \<noteq> []"
    if "fs focusEnv (pjoin focusEnv (cwd focusEnv) ''.taskproject'') = Content content" for content
  proof -
    from that have "content = ''my-project\<newline>''"
      by (simp add: focusEnv_def)
    then show ?thesis by (simp add: trim_def isSpace_def)
  qed
  have h5: "\<exists>s. v = JString s"
    if "fs focusEnv (pjoin focusEnv ws ''.task-state.json'') = Content content"
      and "jsonParse focusEnv content = Some taskState"
      and "focusTicket taskState = Inr (Some v)" and "truthy v" for ws content taskState v
  proof -
    from that(2) have
      "taskState = JObject [(''currentFocus'', JObject [(''ticket'', JString ''DRX-1'')])]"
      by (simp add: focusEnv_def split: if_splits)
    with that(3) show ?thesis by (auto simp: focusTicket_def)
  qed
  have d: "detectContext focusEnv emptyContext =
     Inr \<lparr>currentTicket = Some (JString ''DRX-7''), currentProject = Some ''my-project'',
          workspacePath = Some ''/home/u/shop'', ticketsPath = Some ''/home/u/shop/.tickets''\<rparr>"
    by code_simp
  from context_fields_stay_nonempty[of emptyContext focusEnv "''DRX-9''", OF h1 h2 h3 h4 h5] d
  show ?thesis by simp
qed

section \<open>Task descriptions\<close>

lemma startsWith_iff: "startsWith s w = (\<exists>r. s = w @ r)"
  by (induction s w rule: startsWith.induct) auto

lemma includesStr_iff: "includesStr s w = (\<exists>p r. s = p @ w @ r)"
proof (induction s)
  case Nil
  then show ?case by simp
next
  case (Cons c cs)
  show ?case
  proof
    assume "includesStr (c # cs) w"
    then consider "startsWith (c # cs) w" | "includesStr cs w" by auto
    then show "\<exists>p r. c # cs = p @ w @ r"
    proof cases
      case 1
      then obtain r where "c # cs = [] @ w @ r" by (auto simp: startsWith_iff)
      then show ?thesis by blast
    next
      case 2
      with Cons.IH obtain p r where "cs = p @ w @ r" by blast
      then have "c # cs = (c # p) @ w @ r" by simp
      then show ?thesis by blast
    qed
  next
    assume "\<exists>p r. c # cs = p @ w @ r"
    then obtain p r where pr: "c # cs = p @ w @ r" by blast
    show "includesStr (c # cs) w"
    proof (cases p)
      case Nil
      with pr have "startsWith (c # cs) w" by (auto simp: startsWith_iff)
      then show ?thesis by simp
    next
      case (Cons a p')
      with pr have "cs = p' @ w @ r" by simp
      with Cons.IH have "includesStr cs w" by blast
      then show ?thesis by simp
    qed
  qed
qed

lemma includesStr_append: "includesStr d w \<Longrightarrow> includesStr (d @ x) w"
  by (metis append.assoc includesStr_iff)

lemma includesStr_mid: "includesStr (d @ a @ w @ b) w"
  by (metis append.assoc includesStr_iff)

lemma enhanceTaskDescription_cases:
  "enhanceTaskDescription ctx d =
     d @ (case currentTicket ctx of
            Some v \<Rightarrow> if truthy v \<and> \<not> includesStr d (toStr v) then '' +'' @ toStr v else []
          | None \<Rightarrow> [])
       @ (if orElse (currentProject ctx) [] \<noteq> [] \<and> \<not> includesStr d ''project:''
          then '' project:'' @ orElse (currentProject ctx) [] else [])"
  by (auto simp: enhanceTaskDescription_def Let_def split: option.splits)

lemma enhanced_has_ticket:
  "currentTicket ctx = Some v \<Longrightarrow> truthy v \<Longrightarrow>
   includesStr (enhanceTaskDescription ctx d) (toStr v)"
proof -
  assume a: "currentTicket ctx = Some v" "truthy v"
  show ?thesis
  proof (cases "includesStr d (toStr v)")
    case True
    then show ?thesis
      unfolding enhanceTaskDescription_cases by (rule includesStr_append)
  next
    case False
    have "includesStr (d @ '' +'' @ toStr v @ x) (toStr v)" for x
      by (rule includesStr_mid)
    with a False show ?thesis
      unfolding enhanceTaskDescription_cases by simp
  qed
qed

lemma enhanced_has_project:
  "orElse (currentProject ctx) [] \<noteq> [] \<Longrightarrow>
   includesStr (enhanceTaskDescription ctx d) ''project:''"
proof -
  assume a: "orElse (currentProject ctx) [] \<noteq> []"
  show ?thesis
  proof (cases "includesStr d ''project:''")
    case True
    then show ?thesis
      unfolding enhanceTaskDescription_cases by (rule includesStr_append)
  next
    case False
    have "includesStr ((d @ y) @ '' '' @ ''project:'' @ x) ''project:''" for x y
      by (rule includesStr_mid)
    with a False show ?thesis
      unfolding enhanceTaskDescription_cases by simp
  qed
qed

text \<open>
  Claim C9. \<open>enhanceTaskDescription\<close> is idempotent, for every description and every
  context: its output already contains the ticket and the project marker wherever it
  would add them, so a second application adds nothing.
\<close>

theorem enhanceTaskDescription_idempotent:
  "enhanceTaskDescription ctx (enhanceTaskDescription ctx description)
     = enhanceTaskDescription ctx description"
proof -
  let ?d = "enhanceTaskDescription ctx description"
  have t: "(case currentTicket ctx of
            Some v \<Rightarrow> if truthy v \<and> \<not> includesStr ?d (toStr v) then '' +'' @ toStr v else []
          | None \<Rightarrow> []) = []"
    using enhanced_has_ticket[of ctx _ description] by (auto split: option.splits)
  have p: "(if orElse (currentProject ctx) [] \<noteq> [] \<and> \<not> includesStr ?d ''project:''
          then '' project:'' @ orElse (currentProject ctx) [] else []) = []"
    using enhanced_has_project[of ctx description] by auto
  show ?thesis
    by (subst enhanceTaskDescription_cases) (simp only: t p append_Nil2)
qed

section \<open>Output normalization\<close>

lemma isHeader_not_row: "isHeader line \<Longrightarrow> \<not> isRow line"
  by (auto simp: isHeader_def isRow_def Let_def isDigit_def split: list.splits)

lemma collectTasks_in_list:
  "collectTasks lines True tasks = tasks @ map trim (filter isRow lines)"
  by (induction lines arbitrary: tasks) (auto simp: Let_def isHeader_not_row)

lemma collectTasks_before_header:
  "collectTasks lines False [] =
     (if list_ex (\<lambda>line. includesStr line ''tasks'') (takeWhile (\<lambda>line. \<not> isHeader line) lines)
      then []
      else map trim (filter isRow (dropWhile (\<lambda>line. \<not> isHeader line) lines)))"
  by (induction lines) (auto simp: Let_def isHeader_not_row collectTasks_in_list)

text \<open>
  On a listing as the external tool prints it, the footer line begins with a number too
  and is collected with the rows.
\<close>

lemma formatOutput_listing:
  "formatOutput
     (''ID Age Description'' @ [CHR 0x0A] @ '' 1 2d  fix login'' @ [CHR 0x0A]
        @ ''12 1h  write docs'' @ [CHR 0x0A] @ [CHR 0x0A] @ ''2 tasks'' @ [CHR 0x0A])
     ''list''
   = ''Current tasks:'' @ [CHR 0x0A] @ ''1 2d  fix login'' @ [CHR 0x0A]
       @ ''12 1h  write docs'' @ [CHR 0x0A] @ ''2 tasks''"
  by code_simp

text \<open>
  Claim C10. For the actions \<open>list\<close> and \<open>next\<close>, when at least one task row is collected
  the result is the line \<open>Current tasks:\<close> followed by exactly those rows, joined by line
  breaks, and otherwise it is the raw output; for every other action it is the raw
  output.
\<close>

theorem formatOutput_current_tasks:
  "formatOutput output act =
     (if (act = ''list'' \<or> act = ''next'') \<and> taskRows output \<noteq> []
      then ''Current tasks:'' @ [CHR 0x0A] @ joinWith [CHR 0x0A] (taskRows output)
      else output)"
  by (simp add: formatOutput_def taskRows_def Let_def collectTasks_before_header)

section \<open>Ticket tasks\<close>

lemma checklistTasks_lines:
  "checklistTasks content = map itemText (filter uncheckedLine (splitOn CHR 0x0A content))"
proof -
  have "List.map_filter checkboxMatch ls = map itemText (filter uncheckedLine ls)" for ls
    by (induction ls)
       (auto simp: List.map_filter_def checkboxMatch_def uncheckedLine_def itemText_def
          split: list.splits)
  then show ?thesis by (simp add: checklistTasks_def)
qed

text \<open>A note-derived text is never empty before trimming and lies within one line.\<close>

lemma textRun_text:
  "textRun s = Some (t, r) \<Longrightarrow> t \<noteq> [] \<and> (\<forall>c\<in>set t. \<not> isLineTerminator c)"
  by (auto simp: textRun_def split: if_splits dest: set_takeWhileD)

lemma sepRun_text:
  "sepRun s = Some (t, r) \<Longrightarrow> t \<noteq> [] \<and> (\<forall>c\<in>set t. \<not> isLineTerminator c)"
  by (induction s) (auto split: if_splits option.splits dest: textRun_text)

lemma matchAllTodo_texts:
  "t \<in> set (matchAllTodo s) \<Longrightarrow> t \<noteq> [] \<and> (\<forall>c\<in>set t. \<not> isLineTerminator c)"
proof (induction s rule: matchAllTodo.induct)
  case 1
  then show ?case by simp
next
  case (2 c cs)
  show ?case
  proof (cases "todoAt (c # cs)")
    case None
    with 2 show ?thesis by simp
  next
    case (Some m)
    obtain t' r where m: "m = (t', r)" by (cases m)
    with Some have "sepRun (the (matchLit ''TODO'' (c # cs))) = Some (t', r)"
      by (auto simp: todoAt_def split: option.splits)
    then have "t' \<noteq> [] \<and> (\<forall>c\<in>set t'. \<not> isLineTerminator c)"
      by (rule sepRun_text)
    with 2 Some m show ?thesis by auto
  qed
qed

text \<open>
  Claim C7, as amended. \<open>getTicketTasks\<close> returns the empty sequence when \<open>ticketsPath\<close> is
  unset or empty, and when both files of the ticket are absent. When neither file fails to
  be read, it returns the texts of the unchecked-checkbox lines of the checklist, one per
  line and in document order, followed by the note-derived texts: the trimmed texts of the
  successive matches of the \<open>TODO\<close> pattern in the notes file, scanned as one text.
\<close>

theorem getTicketTasks_result:
  "(ticketsPath ctx = None \<or> ticketsPath ctx = Some [] \<longrightarrow> getTicketTasks e ctx ticket = Inr [])
   \<and> (\<forall>tp. ticketsPath ctx = Some tp
         \<and> fs e (pjoin e (pjoin e tp ticket) ''mr-checklist.md'') = Missing
         \<and> fs e (pjoin e (pjoin e tp ticket) ''context.md'') = Missing
       \<longrightarrow> getTicketTasks e ctx ticket = Inr [])
   \<and> (\<forall>tp. ticketsPath ctx = Some tp \<and> tp \<noteq> []
         \<and> fs e (pjoin e (pjoin e tp ticket) ''mr-checklist.md'') \<noteq> Unreadable
         \<and> fs e (pjoin e (pjoin e tp ticket) ''context.md'') \<noteq> Unreadable
       \<longrightarrow> getTicketTasks e ctx ticket =
             Inr ((case fs e (pjoin e (pjoin e tp ticket) ''mr-checklist.md'') of
                     Content checklist \<Rightarrow>
                       map itemText (filter uncheckedLine (splitOn CHR 0x0A checklist))
                   | _ \<Rightarrow> [])
                  @ (case fs e (pjoin e (pjoin e tp ticket) ''context.md'') of
                       Content notes \<Rightarrow> map trim (matchAllTodo notes)
                     | _ \<Rightarrow> [])))"
  by (auto simp: getTicketTasks_def tasksOfFile_def exists_def readFile_def Let_def
      checklistTasks_lines todoTasks_def split: fileState.splits)

theorem getTicketTasks_result_witness:
  "getTicketTasks ticketEnv emptyContext ''DRX-7'' = Inr []
   \<and> getTicketTasks ticketEnv repoContext ''DRX-7''
       = Inr [''A'', ''B'', ''write tests'', ''update docs'']
   \<and> getTicketTasks ticketEnv repoContext ''DRX-8'' = Inr []"
proof -
  have n: "ticketsPath emptyContext = None"
    by (simp add: emptyContext_def)
  have p: "ticketsPath repoContext = Some ''/home/u/shop/.tickets'' \<and> ''/home/u/shop/.tickets'' \<noteq> []
         \<and> fs ticketEnv (pjoin ticketEnv (pjoin ticketEnv ''/home/u/shop/.tickets'' ''DRX-7'') ''mr-checklist.md'') \<noteq> Unreadable
         \<and> fs ticketEnv (pjoin ticketEnv (pjoin ticketEnv ''/home/u/shop/.tickets'' ''DRX-7'') ''context.md'') \<noteq> Unreadable"
    by (simp add: repoContext_def ticketEnv_def)
  have q: "ticketsPath repoContext = Some ''/home/u/shop/.tickets'' \<and> ''/home/u/shop/.tickets'' \<noteq> []
         \<and> fs ticketEnv (pjoin ticketEnv (pjoin ticketEnv ''/home/u/shop/.tickets'' ''DRX-8'') ''mr-checklist.md'') \<noteq> Unreadable
         \<and> fs ticketEnv (pjoin ticketEnv (pjoin ticketEnv ''/home/u/shop/.tickets'' ''DRX-8'') ''context.md'') \<noteq> Unreadable"
    by (simp add: repoContext_def ticketEnv_def)
  have a: "getTicketTasks ticketEnv emptyContext ''DRX-7'' = Inr []"
    using getTicketTasks_result[of emptyContext ticketEnv "''DRX-7''"] n by blast
  have b: "getTicketTasks ticketEnv repoContext ''DRX-7''
       = Inr [''A'', ''B'', ''write tests'', ''update docs'']"
    by code_simp
  have c: "getTicketTasks ticketEnv repoContext ''DRX-8'' = Inr []"
    using getTicketTasks_result[of repoContext ticketEnv "''DRX-8''"] q
    by (simp add: ticketEnv_def)
  from a b c show ?thesis by simp
qed

text \<open>
  Claim C7 as stated fails. The notes have two lines and each contains the marker, yet
  there is one note-derived task, and its text is not what the second line alone yields.
\<close>

theorem todo_per_line_counterexample:
  "getTicketTasks danglingTodoEnv repoContext ''DRX-7'' = Inr [''A'', ''B'', ''TODO: b'']
   \<and> splitOn CHR 0x0A danglingNotes = [''TODO:'', ''TODO: b'']
   \<and> todoMarked ''TODO:'' \<and> todoMarked ''TODO: b''
   \<and> todoTasksPerLine danglingNotes = [''b'']"
  by code_simp

end
